theory Spec2Isabelle
  imports Complex_Main
begin

section \<open>Strings\<close>

text \<open>
  A JavaScript string is a sequence of UTF-16 code units. The model keeps the code units
  as natural numbers, so that the non-ASCII literals of the source and the line
  terminators of the regular expression engine are what they are in the program.
  \<open>ascii\<close> embeds an ASCII literal.
\<close>

type_synonym jstring = "nat list"

definition ascii :: "string \<Rightarrow> jstring" where
  "ascii s = map of_char s"

text \<open>\<open>Array.prototype.join\<close> on an array of strings.\<close>

fun join :: "jstring \<Rightarrow> jstring list \<Rightarrow> jstring" where
  "join sep [] = []"
| "join sep [x] = x"
| "join sep (x # y # ys) = x @ sep @ join sep (y # ys)"


section \<open>MemoryService\<close>

text \<open>The interface \<open>MemoryItem\<close> of types.ts.\<close>

record MemoryItem =
  key :: jstring
  value_str :: jstring
  addedAt :: nat

text \<open>
  What \<open>localStorage\<close> holds under \<open>MEMORY_KEY\<close>: nothing, a text that
  \<open>JSON.parse\<close> rejects, or the JSON text of an array of items (the program writes
  nothing else under this key). \<open>JSON.stringify\<close>
  followed by \<open>JSON.parse\<close> gives back an array of items with the same fields, so the
  JSON text is kept as the array it encodes. \<open>quotaExceeded\<close> says that
  \<open>localStorage.setItem\<close> throws (storage full or disabled); it belongs to the
  browser, not to the program.
\<close>

datatype stored_text = Missing | Unparsable | Json "MemoryItem list"

record local_storage =
  entry :: stored_text
  quotaExceeded :: bool

datatype js_error = QuotaExceededError | TypeError

text \<open>
  \<open>MemoryService.load\<close>: a missing entry and a parse failure (caught) both give the empty
  array.
\<close>

definition load :: "local_storage \<Rightarrow> MemoryItem list" where
  "load ls = (case entry ls of Missing \<Rightarrow> [] | Unparsable \<Rightarrow> [] | Json ms \<Rightarrow> ms)"

text \<open>
  \<open>MemoryService.save\<close>. The third argument is the reading of \<open>Date.now()\<close>. Nothing
  catches the exception of \<open>setItem\<close>: the store is then unchanged and the caller sees
  the exception.
\<close>

definition save ::
  "jstring \<Rightarrow> jstring \<Rightarrow> nat \<Rightarrow> local_storage \<Rightarrow> js_error + (MemoryItem \<times> local_storage)" where
  "save k v now ls =
     (let memories = load ls;
          newItem = \<lparr>key = k, value_str = v, addedAt = now\<rparr>;
          filtered = filter (\<lambda>m. key m \<noteq> k) memories @ [newItem]
      in if quotaExceeded ls then Inl QuotaExceededError
         else Inr (newItem, ls\<lparr>entry := Json filtered\<rparr>))"

text \<open>\<open>MemoryService.getContextString\<close>, with the two literals as code units.\<close>

definition no_memories :: jstring where
  "no_memories = [26242, 26080, 21382, 21490, 35760, 24518, 12290]"

definition bullet :: "MemoryItem \<Rightarrow> jstring" where
  "bullet m = ascii ''- ['' @ [35760, 24518] @ ascii ''-'' @ key m @ ascii '']: '' @ value_str m"

definition getContextString :: "local_storage \<Rightarrow> jstring" where
  "getContextString ls =
     (let memories = load ls
      in if length memories = 0 then no_memories else join [10] (map bullet memories))"

text \<open>\<open>MemoryService.clear\<close>.\<close>

definition clear :: "local_storage \<Rightarrow> local_storage" where
  "clear ls = ls\<lparr>entry := Missing\<rparr>"

text \<open>
  A sequence of calls of \<open>save\<close>, each with its key, value and clock reading. A call
  that throws leaves the store as it was.
\<close>

fun save_all :: "(jstring \<times> jstring \<times> nat) list \<Rightarrow> local_storage \<Rightarrow> local_storage" where
  "save_all [] ls = ls"
| "save_all ((k, v, t) # ops) ls =
     (case save k v t ls of Inl e \<Rightarrow> save_all ops ls | Inr (m, ls') \<Rightarrow> save_all ops ls')"

text \<open>
  The order of the most recent saves: a write is dropped when a later write has its key.
\<close>

fun last_writes :: "(jstring \<times> jstring \<times> nat) list \<Rightarrow> MemoryItem list" where
  "last_writes [] = []"
| "last_writes ((k, v, t) # ops) =
     (if k \<in> fst ` set ops then last_writes ops
      else \<lparr>key = k, value_str = v, addedAt = t\<rparr> # last_writes ops)"


section \<open>Detection tokens: the regular expression of \<open>parseARObjects\<close>\<close>

text \<open>
  \<open>parseARObjects\<close> runs \<^verbatim>\<open>/\[OBJECT:(.*?):(\d+),(\d+),(\d+),(\d+)\]/g\<close> over the text
  with \<open>regex.exec\<close> in a loop. The expression is a literal created at each call, so
  no \<open>lastIndex\<close> survives a call. What follows is the backtracking matcher of that one
  expression, on code units (the expression has no \<open>u\<close> flag).

  \<open>\d\<close> is an ASCII digit; \<open>.\<close> is any code unit but the four line terminators
  (LF, CR, U+2028, U+2029).
\<close>

definition isDigit :: "nat \<Rightarrow> bool" where
  "isDigit c = (48 \<le> c \<and> c \<le> 57)"

definition isLineTerminator :: "nat \<Rightarrow> bool" where
  "isLineTerminator c = (c = 10 \<or> c = 13 \<or> c = 8232 \<or> c = 8233)"

text \<open>
  \<open>parseInt\<close> on a string of decimal digits. JavaScript numbers are doubles, exact up
  to \<open>2 ^ 53\<close>; the model keeps the exact natural number.
\<close>

definition parseInt :: "jstring \<Rightarrow> nat" where
  "parseInt ds = foldl (\<lambda>n c. 10 * n + (c - 48)) 0 ds"

text \<open>The box of an overlay: \<open>[ymin, xmin, ymax, xmax]\<close>.\<close>

type_synonym box = "nat \<times> nat \<times> nat \<times> nat"

text \<open>A literal of the pattern, matched at the head of the text; the rest is returned.\<close>

fun lit :: "jstring \<Rightarrow> jstring \<Rightarrow> jstring option" where
  "lit [] s = Some s"
| "lit (p # ps) [] = None"
| "lit (p # ps) (c # cs) = (if p = c then lit ps cs else None)"

text \<open>
  The group \<open>(\d+)\<close>: greedy, at least one digit. It is always followed by a literal
  that is not a digit, so giving back digits on backtracking can never help, and the
  longest run is the only candidate.
\<close>

definition digits :: "jstring \<Rightarrow> (nat \<times> jstring) option" where
  "digits s =
     (let ds = takeWhile isDigit s
      in if ds = [] then None else Some (parseInt ds, dropWhile isDigit s))"

text \<open>The part of the pattern after the label: \<^verbatim>\<open>:(\d+),(\d+),(\d+),(\d+)\]\<close>.\<close>

definition coords :: "jstring \<Rightarrow> (box \<times> jstring) option" where
  "coords s =
     Option.bind (lit [58] s) (\<lambda>s.
     Option.bind (digits s) (\<lambda>(ymin, s).
     Option.bind (lit [44] s) (\<lambda>s.
     Option.bind (digits s) (\<lambda>(xmin, s).
     Option.bind (lit [44] s) (\<lambda>s.
     Option.bind (digits s) (\<lambda>(ymax, s).
     Option.bind (lit [44] s) (\<lambda>s.
     Option.bind (digits s) (\<lambda>(xmax, s).
     Option.bind (lit [93] s) (\<lambda>s.
       Some ((ymin, xmin, ymax, xmax), s))))))))))"

text \<open>
  The lazy group \<open>(.*?)\<close>: the rest of the pattern is tried first; when it fails the
  label takes one more code unit, which must not be a line terminator. \<open>acc\<close> is the
  label read so far, reversed.
\<close>

fun label_from :: "jstring \<Rightarrow> jstring \<Rightarrow> (jstring \<times> box \<times> jstring) option" where
  "label_from acc s =
     (case coords s of
        Some (b, r) \<Rightarrow> Some (rev acc, b, r)
      | None \<Rightarrow>
          (case s of
             [] \<Rightarrow> None
           | c # cs \<Rightarrow> if isLineTerminator c then None else label_from (c # acc) cs))"

declare label_from.simps [simp del]

text \<open>A match of the whole pattern starting at the head of the text.\<close>

definition match_at :: "jstring \<Rightarrow> (jstring \<times> box \<times> jstring) option" where
  "match_at s =
     (case lit (ascii ''[OBJECT:'') s of None \<Rightarrow> None | Some s' \<Rightarrow> label_from [] s')"

text \<open>
  The loop \<^verbatim>\<open>while ((match = regex.exec(text)) !== null)\<close>: the leftmost match from the
  current position is taken, and the search goes on after its end. The argument is the
  text from \<open>lastIndex\<close> on. That the recursion ends is proved with the properties of
  the matcher, further down.
\<close>

function exec_all :: "jstring \<Rightarrow> (jstring \<times> box) list" where
  "exec_all s =
     (case match_at s of
        Some (l, b, r) \<Rightarrow> (l, b) # exec_all r
      | None \<Rightarrow> (case s of [] \<Rightarrow> [] | c # cs \<Rightarrow> exec_all cs))"
  by pat_completeness auto


subsection \<open>The token grammar, as the specification words it\<close>

text \<open>
  The grammar \<^verbatim>\<open>[OBJECT:<label>:<ymin>,<xmin>,<ymax>,<xmax>]\<close>, written without reference
  to the matcher: a number is a non-empty string of digits, a label has no line
  terminator. \<open>token_prefix s l b r\<close> says that \<open>s\<close> starts with a token of label \<open>l\<close>
  and box \<open>b\<close>, and goes on with \<open>r\<close>; \<open>occurs s\<close> that a token stands somewhere in
  \<open>s\<close>.
\<close>

definition is_number :: "jstring \<Rightarrow> bool" where
  "is_number d = (d \<noteq> [] \<and> list_all isDigit d)"

definition is_token :: "jstring \<Rightarrow> jstring \<Rightarrow> box \<Rightarrow> bool" where
  "is_token t l b =
     (\<exists>d1 d2 d3 d4.
        t = ascii ''[OBJECT:'' @ l @ [58] @ d1 @ [44] @ d2 @ [44] @ d3 @ [44] @ d4 @ [93]
        \<and> list_all (\<lambda>c. \<not> isLineTerminator c) l
        \<and> is_number d1 \<and> is_number d2 \<and> is_number d3 \<and> is_number d4
        \<and> b = (parseInt d1, parseInt d2, parseInt d3, parseInt d4))"

definition token_prefix :: "jstring \<Rightarrow> jstring \<Rightarrow> box \<Rightarrow> jstring \<Rightarrow> bool" where
  "token_prefix s l b r = (\<exists>t. s = t @ r \<and> is_token t l b)"




section \<open>The session manager: data\<close>

text \<open>
  The component \<open>App\<close> keeps its state in React state variables and in refs. The model
  is one record with a field for each of them that a handler of the session reads or
  writes, under the name it has in the source, and a few fields for the browser objects
  the handlers act on (the timer table, the audio nodes, the storage, the responses
  handed to the session). A state setter takes effect at once in the model.

  Not modelled: the device dialog and the permission flag, the canvas, the random
  identifiers of log entries and overlays (React keys), the display time of a log entry,
  and the outbound media frames.
\<close>

datatype log_source = SYSTEM | JARVIS | USER | TOOL

datatype log_type = Info | Success | Warning | Error

text \<open>
  The messages of \<open>addLog\<close>, one constructor for each literal of the source (in the order
  of the lines 183, 278, 284, 312, 333, 377, 403, 412, 423, 436, 462 and 537 of the
  component). \<open>ToolProtocol\<close> carries the name of the function called.
\<close>

datatype log_message =
    KernelInit | ApiKeyMissing | InitialisingLink | AudioCoreFailed | SystemOnline
  | SensorMountFailed | UserInterrupt | LinkUnstable | SessionEnded | ConnectFailed
  | ToolProtocol jstring | SystemDetached

record LogEntry =
  entry_source :: log_source
  entry_message :: log_message
  entry_type :: log_type

record AROverlayData =
  label :: jstring
  box :: box
  color :: jstring
  timestamp :: nat

text \<open>The state of an \<open>AudioContext\<close>.\<close>

datatype context_state = Suspended | Running | Closed

text \<open>
  An \<open>AudioBufferSourceNode\<close> made by \<open>playAudioResponse\<close>: the argument of its
  \<open>start\<close>, the duration of its buffer, and whether \<open>stop\<close> has been called on it.
  Times of the audio clock are seconds, as real numbers.
\<close>

record source_node =
  startWhen :: real
  duration :: real
  stopped :: bool

text \<open>
  A pending timer of the window: the reconnect of \<open>onclose\<close> (\<open>setTimeout\<close>, with its
  delay) or the frame sampler (\<open>setInterval\<close>, with its period), both in milliseconds.
  Timeouts and intervals share one table of handles.
\<close>

datatype timer = ReconnectTimeout nat | FrameInterval nat

text \<open>
  A function call of a tool-call payload, and the response sent for it. The argument
  object maps names to strings, as the declarations of types.ts have it; it may be
  absent (the SDK types it optional).
\<close>

record FunctionCall =
  fc_id :: jstring
  fc_name :: jstring
  fc_args :: "(jstring \<times> jstring) list option"

record FunctionResponse =
  fr_id :: jstring
  fr_name :: jstring
  fr_result :: jstring

text \<open>
  A server message, as far as \<open>onmessage\<close> reads it: the parts of the model turn, the
  function calls of a tool call, the interruption flag. A tool call without its list of
  function calls has no call to answer and changes nothing; it is the empty list here.
\<close>

record Part =
  inlineData :: "jstring option"
  part_text :: "jstring option"

record LiveServerMessage =
  parts :: "Part list option"
  toolCall :: "FunctionCall list option"
  interrupted :: bool

record app_state =
  isConnected :: bool
  isConnecting :: bool
  logs :: "LogEntry list"
  memories :: "MemoryItem list"
  arOverlays :: "AROverlayData list"
  audioContextRef :: "context_state option"
  inputContextRef :: "context_state option"
  analyserRef :: bool
  sourcesRef :: "nat set"
  sessionRef :: "nat option"
  isStreamingRef :: bool
  nextStartTimeRef :: real
  frameIntervalRef :: "nat option"
  activeAudioIdRef :: jstring
  activeVideoIdRef :: jstring
  isUserDisconnectingRef :: bool
  reconnectTimeoutRef :: "nat option"
  connectionAttemptIdRef :: nat
  srcObject :: "(jstring \<times> jstring) option"
  audioNodes :: "nat \<Rightarrow> source_node option"
  nodeCount :: nat
  timers :: "nat \<Rightarrow> timer option"
  timerCount :: nat
  localStorage :: local_storage
  toolResponses :: "(nat \<times> FunctionResponse) list"

text \<open>
  \<open>sourcesRef\<close> holds the identities of the nodes in the set, \<open>audioNodes\<close> the nodes
  themselves; \<open>nodeCount\<close> is the identity of the next node. \<open>timers\<close> is the table of
  pending timers by handle; the window hands out the handles \<open>1, 2, \<dots>\<close>, and
  \<open>timerCount\<close> is the last one. \<open>sessionRef\<close> names the session promise by the attempt
  that made it, \<open>srcObject\<close> the stream of the video element by the devices it was
  acquired with. \<open>toolResponses\<close> are the calls of \<open>sendToolResponse\<close>, each with the
  attempt whose session it was sent on.
\<close>

text \<open>
  What a handler reads from outside the state: the clock of \<open>Date.now()\<close>, whether the
  API key is configured, whether the audio contexts could be set up, whether
  \<open>ai.live.connect\<close> returned; for a message, the clock of the output context
  (\<open>ctx.currentTime\<close>), whether \<open>decode\<close> returned on the audio data, and the clock of
  \<open>Date.now()\<close>.
\<close>

record connect_env =
  dateNow :: nat
  apiKey :: bool
  audioSetupOk :: bool
  liveConnectOk :: bool

record message_env =
  currentTime :: real
  decodeOk :: bool
  messageNow :: nat


section \<open>The session manager: operations\<close>

definition addLog :: "log_message \<Rightarrow> log_source \<Rightarrow> log_type \<Rightarrow> app_state \<Rightarrow> app_state" where
  "addLog m src ty s = s\<lparr>logs := logs s @ [\<lparr>entry_source = src, entry_message = m, entry_type = ty\<rparr>]\<rparr>"

text \<open>\<open>setTimeout\<close> and \<open>setInterval\<close>: a new handle, never zero.\<close>

definition setTimer :: "timer \<Rightarrow> app_state \<Rightarrow> nat \<times> app_state" where
  "setTimer t s =
     (let h = Suc (timerCount s)
      in (h, s\<lparr>timers := (timers s)(h := Some t), timerCount := h\<rparr>))"

text \<open>
  \<^verbatim>\<open>if (ref.current) clearTimeout(ref.current)\<close>, and the same with \<open>clearInterval\<close>:
  nothing happens for \<open>null\<close> and for the falsy handle \<open>0\<close>. The ref keeps the handle.
\<close>

definition clearTimer :: "nat option \<Rightarrow> app_state \<Rightarrow> app_state" where
  "clearTimer ref s =
     (case ref of
        None \<Rightarrow> s
      | Some h \<Rightarrow> if h = 0 then s else s\<lparr>timers := (timers s)(h := None)\<rparr>)"

text \<open>\<open>stopAllAudio\<close> (lines 512 to 516).\<close>

definition stopAllAudio :: "app_state \<Rightarrow> app_state" where
  "stopAllAudio s =
     s\<lparr>audioNodes :=
         (\<lambda>i. if i \<in> sourcesRef s
              then map_option (\<lambda>n. n\<lparr>stopped := True\<rparr>) (audioNodes s i)
              else audioNodes s i),
       sourcesRef := {},
       nextStartTimeRef := 0\<rparr>"

text \<open>
  \<open>cleanup\<close> (lines 518 to 531). \<open>close()\<close> on a context leaves it closed. The sources
  and the playback clock are not touched.
\<close>

definition cleanup :: "app_state \<Rightarrow> app_state" where
  "cleanup s =
     (let s1 = s\<lparr>isStreamingRef := False, isConnected := False, isConnecting := False\<rparr>;
          s2 = clearTimer (frameIntervalRef s1) s1;
          s3 = s2\<lparr>srcObject := None\<rparr>;
          s4 = s3\<lparr>audioContextRef := map_option (\<lambda>c. Closed) (audioContextRef s3)\<rparr>;
          s5 = s4\<lparr>inputContextRef := map_option (\<lambda>c. Closed) (inputContextRef s4)\<rparr>
      in s5\<lparr>arOverlays := []\<rparr>)"

text \<open>\<open>disconnect\<close> (lines 533 to 538).\<close>

definition disconnect :: "app_state \<Rightarrow> app_state" where
  "disconnect s =
     (let s1 = s\<lparr>isUserDisconnectingRef := True\<rparr>;
          s2 = clearTimer (reconnectTimeoutRef s1) s1;
          s3 = cleanup s2
      in addLog SystemDetached SYSTEM Warning s3)"

text \<open>
  \<open>playAudioResponse\<close> (lines 491 to 510) is an async function that \<open>onmessage\<close> calls
  without awaiting it. It runs up to \<^verbatim>\<open>await decodeAudioData(...)\<close> inside the call: that
  is \<open>playAudioResponse_begin\<close>, whose first argument says whether \<open>decode\<close> returned (an
  exception ends the function in its \<open>catch\<close>). The rest runs later, as a step of its
  own, once the caller and everything else on the stack has returned: that is
  \<open>playAudioResponse_resume\<close>, whose argument is the duration of the decoded buffer, or
  \<open>None\<close> when decoding was rejected. \<open>decode\<close> and \<open>decodeAudioData\<close> are not part of
  the sources at hand; their outcomes are these arguments.
\<close>

definition playAudioResponse_begin :: "bool \<Rightarrow> real \<Rightarrow> app_state \<Rightarrow> app_state" where
  "playAudioResponse_begin decoded now s =
     (if \<not> decoded then s
      else s\<lparr>nextStartTimeRef := max (nextStartTimeRef s) now\<rparr>)"

definition playAudioResponse_resume :: "real option \<Rightarrow> app_state \<Rightarrow> app_state" where
  "playAudioResponse_resume buffer s =
     (case buffer of
        None \<Rightarrow> s
      | Some d \<Rightarrow>
          (let source = nodeCount s;
               s1 = s\<lparr>audioNodes := (audioNodes s)(source :=
                        Some \<lparr>startWhen = nextStartTimeRef s, duration = d, stopped = False\<rparr>),
                      nodeCount := Suc source\<rparr>;
               s2 = s1\<lparr>nextStartTimeRef := nextStartTimeRef s1 + d\<rparr>
           in s2\<lparr>sourcesRef := insert source (sourcesRef s2)\<rparr>))"

text \<open>The two halves one after the other, with nothing running in between.\<close>

definition playAudioResponse :: "bool \<Rightarrow> real \<Rightarrow> real option \<Rightarrow> app_state \<Rightarrow> app_state" where
  "playAudioResponse decoded now buffer s =
     (if \<not> decoded then s
      else playAudioResponse_resume buffer (playAudioResponse_begin decoded now s))"

text \<open>The handler \<open>source.onended\<close>.\<close>

definition source_onended :: "nat \<Rightarrow> app_state \<Rightarrow> app_state" where
  "source_onended source s = s\<lparr>sourcesRef := sourcesRef s - {source}\<rparr>"

text \<open>
  \<open>parseARObjects\<close> (lines 475 to 489). The second argument is the reading of
  \<open>Date.now()\<close>, taken as the same for every match of one call.
\<close>

definition parseARObjects :: "jstring \<Rightarrow> nat \<Rightarrow> app_state \<Rightarrow> app_state" where
  "parseARObjects frag now s =
     (let newOverlays =
            map (\<lambda>(l, b). \<lparr>label = l, box = b, color = ascii ''#22d3ee'', timestamp = now\<rparr>)
              (exec_all frag)
      in if length newOverlays > 0 then s\<lparr>arOverlays := arOverlays s @ newOverlays\<rparr> else s)"

text \<open>
  An argument of a function call, as a template literal prints it: a missing property
  prints as \<open>undefined\<close>. The same text stands for a missing key or value of
  \<open>saveToLongTermMemory\<close>; there the program stores \<open>undefined\<close> itself, which the model
  does not tell from that text. The declarations require both properties.
\<close>

definition arg :: "(jstring \<times> jstring) list \<Rightarrow> string \<Rightarrow> jstring" where
  "arg args name = (case map_of args (ascii name) of Some v \<Rightarrow> v | None \<Rightarrow> ascii ''undefined'')"

text \<open>
  The body of the loop of \<open>handleToolCalls\<close> (lines 463 to 470): the result text of one
  call. The three tests of the source are on names that exclude one another. Reading a
  property of an absent argument object throws a \<open>TypeError\<close>; \<open>MemoryService.save\<close>
  throws when the storage refuses the write. Nothing in \<open>handleToolCalls\<close> catches
  either.
\<close>

definition toolResult :: "FunctionCall \<Rightarrow> nat \<Rightarrow> app_state \<Rightarrow> js_error + (jstring \<times> app_state)" where
  "toolResult fc now s =
     (if fc_name fc = ascii ''setReminder'' then
        (case fc_args fc of
           None \<Rightarrow> Inl TypeError
         | Some args \<Rightarrow> Inr ([24050, 35774, 25552, 37266, 58, 32] @ arg args ''task'', s))
      else if fc_name fc = ascii ''toggleSmartHome'' then
        (case fc_args fc of
           None \<Rightarrow> Inl TypeError
         | Some args \<Rightarrow> Inr (arg args ''device'' @ [32, 24050, 32] @ arg args ''action'', s))
      else if fc_name fc = ascii ''saveToLongTermMemory'' then
        (case fc_args fc of
           None \<Rightarrow> Inl TypeError
         | Some args \<Rightarrow>
             (case save (arg args ''key'') (arg args ''value'') now (localStorage s) of
                Inl e \<Rightarrow> Inl e
              | Inr (item, ls) \<Rightarrow>
                  Inr ([24050, 24402, 26723], s\<lparr>localStorage := ls, memories := load ls\<rparr>)))
      else Inr (ascii ''OK'', s))"

text \<open>
  \<open>handleToolCalls\<close> (lines 460 to 473), an async function without an \<open>await\<close>: it runs
  to its end inside the call, and an exception ends the loop and rejects its promise,
  which nobody reads. The result is the state and the exception, if any.
\<close>

fun handleToolCalls ::
  "nat \<Rightarrow> FunctionCall list \<Rightarrow> nat \<Rightarrow> app_state \<Rightarrow> app_state \<times> js_error option" where
  "handleToolCalls attemptId [] now s = (s, None)"
| "handleToolCalls attemptId (fc # fcs) now s =
     (let s1 = addLog (ToolProtocol (fc_name fc)) TOOL Info s
      in case toolResult fc now s1 of
           Inl e \<Rightarrow> (s1, Some e)
         | Inr (result, s2) \<Rightarrow>
             handleToolCalls attemptId fcs now
               (s2\<lparr>toolResponses := toolResponses s2 @
                  [(attemptId, \<lparr>fr_id = fc_id fc, fr_name = fc_name fc, fr_result = result\<rparr>)]\<rparr>))"

text \<open>\<open>startVideoStreaming\<close> (lines 441 to 458): the sampler runs every 1000 ms.\<close>

definition startVideoStreaming :: "app_state \<Rightarrow> app_state" where
  "startVideoStreaming s =
     (let s1 = clearTimer (frameIntervalRef s) s;
          (h, s2) = setTimer (FrameInterval 1000) s1
      in s2\<lparr>frameIntervalRef := Some h\<rparr>)"

text \<open>A ref to a closed context is dropped before the contexts are set up.\<close>

definition reopen :: "context_state option \<Rightarrow> context_state option" where
  "reopen ref = (if ref = Some Closed then None else ref)"

text \<open>
  \<open>connect\<close> (lines 272 to 439), taken as one step: its two \<open>await\<close>s resume suspended
  audio contexts and touch nothing else. The attempt identifier is the reading of
  \<open>Date.now()\<close>. The callbacks of the session it opens are the functions \<open>onopen\<close>,
  \<open>onmessage\<close>, \<open>onclose\<close> and \<open>onerror\<close> below, applied to this identifier. The
  test of \<open>isConnected\<close> reads the value of the render that made the closure; the
  model reads the current one, and only a line of the log depends on it.
\<close>

definition connect :: "jstring \<Rightarrow> jstring \<Rightarrow> connect_env \<Rightarrow> app_state \<Rightarrow> app_state" where
  "connect audioId videoId env s =
     (let attemptId = dateNow env;
          s1 = s\<lparr>connectionAttemptIdRef := attemptId\<rparr>
      in if \<not> apiKey env then addLog ApiKeyMissing SYSTEM Error s1
         else
           (let s2 = s1\<lparr>isConnecting := True\<rparr>;
                s3 = (if \<not> isConnected s2 then addLog InitialisingLink SYSTEM Info s2 else s2);
                s4 = s3\<lparr>audioContextRef := reopen (audioContextRef s3),
                        inputContextRef := reopen (inputContextRef s3)\<rparr>
            in if \<not> audioSetupOk env then addLog AudioCoreFailed SYSTEM Error s4
               else
                 (let s5 = s4\<lparr>audioContextRef := Some Running, inputContextRef := Some Running,
                              analyserRef := True\<rparr>
                  in if \<not> liveConnectOk env
                     then (addLog ConnectFailed SYSTEM Error s5)\<lparr>isConnecting := False\<rparr>
                     else s5\<lparr>sessionRef := Some attemptId\<rparr>)))"

text \<open>\<open>handleDeviceSelection\<close> (lines 264 to 270): the connect of the user.\<close>

definition handleDeviceSelection :: "jstring \<Rightarrow> jstring \<Rightarrow> connect_env \<Rightarrow> app_state \<Rightarrow> app_state" where
  "handleDeviceSelection audioId videoId env s =
     connect audioId videoId env
       (s\<lparr>activeAudioIdRef := audioId, activeVideoIdRef := videoId,
          isUserDisconnectingRef := False\<rparr>)"

text \<open>
  \<open>onopen\<close> (lines 330 to 380), up to \<^verbatim>\<open>await navigator.mediaDevices.getUserMedia\<close>, and
  what runs when that promise settles: the streams are wired and the frame sampler
  started, or, on any failure, the error is logged and \<open>disconnect\<close> called.
\<close>

definition onopen :: "nat \<Rightarrow> app_state \<Rightarrow> app_state" where
  "onopen attemptId s =
     (if connectionAttemptIdRef s \<noteq> attemptId then s
      else (addLog SystemOnline SYSTEM Success s)
             \<lparr>isConnected := True, isConnecting := False, isStreamingRef := True,
              nextStartTimeRef := 0\<rparr>)"

definition onopen_media :: "jstring \<Rightarrow> jstring \<Rightarrow> bool \<Rightarrow> app_state \<Rightarrow> app_state" where
  "onopen_media audioId videoId acquired s =
     (if acquired then startVideoStreaming (s\<lparr>srcObject := Some (audioId, videoId)\<rparr>)
      else disconnect (addLog SensorMountFailed SYSTEM Error s))"

text \<open>
  \<open>onmessage\<close> (lines 381 to 406). The audio data is that of the first part; an empty
  string is falsy, for the audio data as for the text of a part.
\<close>

definition audioData :: "LiveServerMessage \<Rightarrow> jstring option" where
  "audioData msg = (case parts msg of Some (p # ps) \<Rightarrow> inlineData p | _ \<Rightarrow> None)"

definition parseParts :: "Part list \<Rightarrow> nat \<Rightarrow> app_state \<Rightarrow> app_state" where
  "parseParts ps now s =
     foldl (\<lambda>st p. case part_text p of
                     None \<Rightarrow> st
                   | Some t \<Rightarrow> if t = [] then st else parseARObjects t now st) s ps"

definition onmessage :: "nat \<Rightarrow> LiveServerMessage \<Rightarrow> message_env \<Rightarrow> app_state \<Rightarrow> app_state" where
  "onmessage attemptId msg env s =
     (if connectionAttemptIdRef s \<noteq> attemptId then s
      else
        (let s1 = (case audioData msg of
                     None \<Rightarrow> s
                   | Some d \<Rightarrow>
                       if d \<noteq> [] \<and> audioContextRef s \<noteq> None \<and> analyserRef s
                       then playAudioResponse_begin (decodeOk env) (currentTime env) s
                       else s);
             s2 = (case parts msg of None \<Rightarrow> s1 | Some ps \<Rightarrow> parseParts ps (messageNow env) s1);
             s3 = (case toolCall msg of
                     None \<Rightarrow> s2
                   | Some fcs \<Rightarrow> fst (handleToolCalls attemptId fcs (messageNow env) s2))
         in if interrupted msg then stopAllAudio (addLog UserInterrupt JARVIS Warning s3)
            else s3))"

text \<open>\<open>onclose\<close> (lines 407 to 426) and \<open>onerror\<close> (lines 427 to 430).\<close>

definition onclose :: "nat \<Rightarrow> app_state \<Rightarrow> app_state" where
  "onclose attemptId s =
     (if connectionAttemptIdRef s \<noteq> attemptId then s
      else if \<not> isUserDisconnectingRef s then
        (let s1 = addLog LinkUnstable SYSTEM Warning s;
             s2 = s1\<lparr>isStreamingRef := False\<rparr>;
             s3 = clearTimer (frameIntervalRef s2) s2;
             s4 = clearTimer (reconnectTimeoutRef s3) s3;
             (h, s5) = setTimer (ReconnectTimeout 1500) s4
         in s5\<lparr>reconnectTimeoutRef := Some h\<rparr>)
      else cleanup (addLog SessionEnded SYSTEM Info s))"

definition onerror :: "nat \<Rightarrow> app_state \<Rightarrow> app_state" where
  "onerror attemptId s = s"

text \<open>
  A timer of the table fires. A timeout leaves the table and runs its callback,
  \<^verbatim>\<open>connect(activeAudioIdRef.current, activeVideoIdRef.current)\<close>; the callback of the
  frame sampler changes nothing that is modelled. A handle that is not in the table
  cannot fire.
\<close>

definition fire_timer :: "nat \<Rightarrow> connect_env \<Rightarrow> app_state \<Rightarrow> app_state" where
  "fire_timer h env s =
     (case timers s h of
        None \<Rightarrow> s
      | Some (FrameInterval period) \<Rightarrow> s
      | Some (ReconnectTimeout delay) \<Rightarrow>
          connect (activeAudioIdRef s) (activeVideoIdRef s) env (s\<lparr>timers := (timers s)(h := None)\<rparr>))"

text \<open>
  The state of a freshly loaded page over a given storage, and the effect that runs when
  the component is mounted (lines 181 to 198).
\<close>

definition initial_state :: "local_storage \<Rightarrow> app_state" where
  "initial_state ls =
     \<lparr>isConnected = False, isConnecting = False, logs = [], memories = [], arOverlays = [],
      audioContextRef = None, inputContextRef = None, analyserRef = False, sourcesRef = {},
      sessionRef = None, isStreamingRef = False, nextStartTimeRef = 0, frameIntervalRef = None,
      activeAudioIdRef = [], activeVideoIdRef = [], isUserDisconnectingRef = False,
      reconnectTimeoutRef = None, connectionAttemptIdRef = 0, srcObject = None,
      audioNodes = (\<lambda>i. None), nodeCount = 0, timers = (\<lambda>h. None), timerCount = 0,
      localStorage = ls, toolResponses = []\<rparr>"

definition mount :: "app_state \<Rightarrow> app_state" where
  "mount s = addLog KernelInit SYSTEM Info (s\<lparr>memories := load (localStorage s)\<rparr>)"


section \<open>Events\<close>

text \<open>
  Everything runs on one event loop. An event is one handler run to its end, or to its
  next \<open>await\<close>: the mount effect, the confirmed device selection, a callback of a
  session (with the attempt it belongs to), the continuation of \<open>onopen\<close> after
  \<open>getUserMedia\<close>, the continuation of \<open>playAudioResponse\<close> after decoding, the end of
  a source, the disconnect of the user (or of the unmount), a timer that fires, and the
  storage running full or free. \<open>run\<close> applies a sequence of events, the first one
  first. Any event may come at any time, whether or not the program could bring it
  about; what holds after every sequence holds after those the program can see.
\<close>

datatype event =
    Mount
  | DeviceSelection jstring jstring connect_env
  | Open nat
  | OpenMedia jstring jstring bool
  | Message nat LiveServerMessage message_env
  | AudioDecoded "real option"
  | SourceEnded nat
  | Close nat
  | TransportError nat
  | Disconnect
  | TimerFired nat connect_env
  | StorageQuota bool

fun step :: "event \<Rightarrow> app_state \<Rightarrow> app_state" where
  "step Mount s = mount s"
| "step (DeviceSelection audioId videoId env) s = handleDeviceSelection audioId videoId env s"
| "step (Open attemptId) s = onopen attemptId s"
| "step (OpenMedia audioId videoId acquired) s = onopen_media audioId videoId acquired s"
| "step (Message attemptId msg env) s = onmessage attemptId msg env s"
| "step (AudioDecoded buffer) s = playAudioResponse_resume buffer s"
| "step (SourceEnded source) s = source_onended source s"
| "step (Close attemptId) s = onclose attemptId s"
| "step (TransportError attemptId) s = onerror attemptId s"
| "step Disconnect s = disconnect s"
| "step (TimerFired h env) s = fire_timer h env s"
| "step (StorageQuota b) s = s\<lparr>localStorage := (localStorage s)\<lparr>quotaExceeded := b\<rparr>\<rparr>"

definition run :: "event list \<Rightarrow> app_state \<Rightarrow> app_state" where
  "run es s = foldl (\<lambda>st e. step e st) s es"



section \<open>Notions used in the statements\<close>

text \<open>A callback of the session of a given attempt.\<close>

definition callback_of :: "nat \<Rightarrow> event \<Rightarrow> bool" where
  "callback_of attemptId e =
     (case e of
        Open a \<Rightarrow> a = attemptId
      | Message a msg env \<Rightarrow> a = attemptId
      | Close a \<Rightarrow> a = attemptId
      | TransportError a \<Rightarrow> a = attemptId
      | _ \<Rightarrow> False)"

text \<open>
  The calls of a payload that throw: a call of one of the three tools without an argument
  object, and a save while the storage refuses writes.
\<close>

definition known_tool :: "jstring \<Rightarrow> bool" where
  "known_tool n =
     (n = ascii ''setReminder'' \<or> n = ascii ''toggleSmartHome'' \<or> n = ascii ''saveToLongTermMemory'')"

definition tool_throws :: "local_storage \<Rightarrow> FunctionCall \<Rightarrow> bool" where
  "tool_throws ls fc =
     (known_tool (fc_name fc) \<and>
      (fc_args fc = None \<or> fc_name fc = ascii ''saveToLongTermMemory'' \<and> quotaExceeded ls))"

text \<open>What correlates a response with its call: the session, the call id and the name.\<close>

definition correlation :: "nat \<times> FunctionResponse \<Rightarrow> nat \<times> jstring \<times> jstring" where
  "correlation p = (fst p, fr_id (snd p), fr_name (snd p))"

text \<open>
  The timer table is in order when every handle in it has been handed out and is not
  zero, and every pending reconnect is the one \<open>reconnectTimeoutRef\<close> names, with the
  delay of 1500 ms.
\<close>

definition timers_ok :: "app_state \<Rightarrow> bool" where
  "timers_ok s =
     (\<forall>h t. timers s h = Some t \<longrightarrow>
        0 < h \<and> h \<le> timerCount s \<and>
        (\<forall>d. t = ReconnectTimeout d \<longrightarrow> reconnectTimeoutRef s = Some h \<and> d = 1500))"


definition quiescent :: "app_state \<Rightarrow> bool" where
  "quiescent s =
     (isUserDisconnectingRef s \<and> (\<forall>h d. timers s h \<noteq> Some (ReconnectTimeout d)))"

text \<open>The members of the set of sources are nodes of the audio graph.\<close>

definition nodes_ok :: "app_state \<Rightarrow> bool" where
  "nodes_ok s = (\<forall>i\<in>sourcesRef s. audioNodes s i \<noteq> None)"

text \<open>
  A state with the fields blanked that logging, parsing and tool calls write: two states
  that agree after blanking differ in those fields only.
\<close>

definition erase :: "app_state \<Rightarrow> app_state" where
  "erase s = s\<lparr>logs := [], memories := [], arOverlays := [], toolResponses := [],
               localStorage := \<lparr>entry = Missing, quotaExceeded = False\<rparr>\<rparr>"


section \<open>Concrete sessions\<close>

text \<open>
  A page over an empty storage, on which the user picks a microphone and a camera at the
  clock reading 1000; the session opens and the media are acquired. Audio messages are
  received with the output clock at a given time.
\<close>

definition fresh_storage :: local_storage where
  "fresh_storage = \<lparr>entry = Missing, quotaExceeded = False\<rparr>"

definition env_at :: "nat \<Rightarrow> connect_env" where
  "env_at t = \<lparr>dateNow = t, apiKey = True, audioSetupOk = True, liveConnectOk = True\<rparr>"

definition live_state :: app_state where
  "live_state =
     run [Mount, DeviceSelection (ascii ''mic'') (ascii ''cam'') (env_at 1000), Open 1000,
          OpenMedia (ascii ''mic'') (ascii ''cam'') True]
       (initial_state fresh_storage)"

definition audio_message :: "bool \<Rightarrow> LiveServerMessage" where
  "audio_message intr =
     \<lparr>parts = Some [\<lparr>inlineData = Some (ascii ''UklGRg==''), part_text = None\<rparr>],
      toolCall = None, interrupted = intr\<rparr>"

definition heard_at :: "real \<Rightarrow> message_env" where
  "heard_at t = \<lparr>currentTime = t, decodeOk = True, messageNow = 2000\<rparr>"

definition interrupt_message :: LiveServerMessage where
  "interrupt_message = \<lparr>parts = None, toolCall = None, interrupted = True\<rparr>"

text \<open>The user picks the devices again, at the clock reading 3000: a newer attempt.\<close>

definition superseding_state :: app_state where
  "superseding_state =
     run [DeviceSelection (ascii ''mic'') (ascii ''cam'') (env_at 3000)] live_state"

text \<open>One segment of 5 s is playing, or that one and a second of 3 s behind it.\<close>

definition playing_state :: app_state where
  "playing_state =
     run [Message 1000 (audio_message False) (heard_at 100), AudioDecoded (Some 5)] live_state"

definition playing_two :: app_state where
  "playing_two =
     run [Message 1000 (audio_message False) (heard_at 101), AudioDecoded (Some 3)] playing_state"

text \<open>A payload of three calls: a reminder, a save and a call of an unknown name.\<close>

definition reminder_call :: FunctionCall where
  "reminder_call =
     \<lparr>fc_id = ascii ''c1'', fc_name = ascii ''setReminder'',
      fc_args = Some [(ascii ''task'', ascii ''tea''), (ascii ''time'', ascii ''5pm'')]\<rparr>"

definition save_call :: FunctionCall where
  "save_call =
     \<lparr>fc_id = ascii ''c2'', fc_name = ascii ''saveToLongTermMemory'',
      fc_args = Some [(ascii ''key'', ascii ''city''), (ascii ''value'', ascii ''Oslo'')]\<rparr>"

definition unknown_call :: FunctionCall where
  "unknown_call = \<lparr>fc_id = ascii ''c3'', fc_name = ascii ''openPodBayDoors'', fc_args = None\<rparr>"

section \<open>Properties of the memory store\<close>

lemma load_save:
  "save k v t ls = Inr (m, ls') \<Longrightarrow>
     load ls' = filter (\<lambda>m. key m \<noteq> k) (load ls) @ [\<lparr>key = k, value_str = v, addedAt = t\<rparr>]"
  by (auto simp: save_def load_def Let_def split: if_splits)

lemma save_quota:
  "save k v t ls = Inr (m, ls') \<Longrightarrow> quotaExceeded ls' = quotaExceeded ls"
  by (auto simp: save_def Let_def split: if_splits)

lemma save_distinct:
  assumes "save k v t ls = Inr (m, ls')" and "distinct (map key (load ls))"
  shows "distinct (map key (load ls'))"
proof -
  have "distinct (map key (filter (\<lambda>m. key m \<noteq> k) (load ls)))"
    using assms(2) by (rule distinct_map_filter)
  then show ?thesis
    unfolding load_save [OF assms(1)] by auto
qed

lemma save_all_distinct:
  "distinct (map key (load ls)) \<Longrightarrow> distinct (map key (load (save_all ops ls)))"
proof (induction ops arbitrary: ls)
  case Nil
  then show ?case by simp
next
  case (Cons op ops)
  obtain k v t where op: "op = (k, v, t)" by (cases op)
  show ?case
  proof (cases "save k v t ls")
    case (Inl e)
    with Cons op show ?thesis by simp
  next
    case (Inr r)
    obtain m ls' where r: "r = (m, ls')" by (cases r)
    from Inr r Cons.prems have "distinct (map key (load ls'))"
      by (auto intro: save_distinct)
    with Cons.IH Inr r op show ?thesis by simp
  qed
qed

lemma last_writes_snoc:
  "last_writes (ops @ [(k, v, t)]) =
     filter (\<lambda>m. key m \<noteq> k) (last_writes ops) @ [\<lparr>key = k, value_str = v, addedAt = t\<rparr>]"
  by (induction ops rule: last_writes.induct) auto

lemma last_writes_Nil: "last_writes ops = [] \<longleftrightarrow> ops = []"
  by (induction ops rule: last_writes.induct) auto

lemma save_all_snoc:
  "save_all (ops @ [op]) ls = save_all [op] (save_all ops ls)"
  by (induction ops ls rule: save_all.induct) (auto split: sum.splits)

lemma save_all_quota:
  "quotaExceeded (save_all ops ls) = quotaExceeded ls"
  by (induction ops ls rule: save_all.induct) (auto split: sum.splits dest: save_quota)

lemma load_save_all:
  assumes "\<not> quotaExceeded ls" and "load ls = []"
  shows "load (save_all ops ls) = last_writes ops"
proof (induction ops rule: rev_induct)
  case Nil
  then show ?case using assms by simp
next
  case (snoc op ops)
  obtain k v t where op: "op = (k, v, t)" by (cases op)
  let ?ls = "save_all ops ls"
  have "\<not> quotaExceeded ?ls" using assms(1) by (simp add: save_all_quota)
  then obtain m ls' where s: "save k v t ?ls = Inr (m, ls')"
    by (simp add: save_def Let_def)
  have "load (save_all (ops @ [op]) ls) = load ls'"
    using s op by (simp add: save_all_snoc)
  also have "\<dots> = filter (\<lambda>m. key m \<noteq> k) (load ?ls) @ [\<lparr>key = k, value_str = v, addedAt = t\<rparr>]"
    using s by (rule load_save)
  finally show ?case
    using snoc op by (simp add: last_writes_snoc)
qed

text \<open>
  C7. After \<open>save(key, v1)\<close> and \<open>save(key, v2)\<close> have both returned, \<open>load()\<close> holds
  exactly one fact for \<open>key\<close>, and its value is \<open>v2\<close> (whatever the store held before).
  More generally, a store with at most one fact per key (the empty store of a fresh
  browser is one) has at most one fact per key after any sequence of saves, whether or
  not some of them fail on the write.
\<close>

theorem C7_last_write_wins:
  "(save k v1 t1 ls = Inr (m1, ls1) \<and> save k v2 t2 ls1 = Inr (m2, ls2) \<longrightarrow>
      filter (\<lambda>m. key m = k) (load ls2) = [\<lparr>key = k, value_str = v2, addedAt = t2\<rparr>])
   \<and> (distinct (map key (load ls)) \<longrightarrow> distinct (map key (load (save_all ops ls))))"
proof (intro conjI impI)
  assume a: "save k v1 t1 ls = Inr (m1, ls1) \<and> save k v2 t2 ls1 = Inr (m2, ls2)"
  then have "load ls2 =
      filter (\<lambda>m. key m \<noteq> k) (load ls1) @ [\<lparr>key = k, value_str = v2, addedAt = t2\<rparr>]"
    by (simp add: load_save)
  then show "filter (\<lambda>m. key m = k) (load ls2) = [\<lparr>key = k, value_str = v2, addedAt = t2\<rparr>]"
    by simp
next
  assume "distinct (map key (load ls))"
  then show "distinct (map key (load (save_all ops ls)))"
    by (rule save_all_distinct)
qed

theorem C7_last_write_wins_witness:
  "save (ascii ''city'') (ascii ''Oslo'') 10 \<lparr>entry = Missing, quotaExceeded = False\<rparr> =
     Inr (\<lparr>key = ascii ''city'', value_str = ascii ''Oslo'', addedAt = 10\<rparr>,
          \<lparr>entry = Json [\<lparr>key = ascii ''city'', value_str = ascii ''Oslo'', addedAt = 10\<rparr>],
           quotaExceeded = False\<rparr>)
   \<and> save (ascii ''city'') (ascii ''Rome'') 20
        \<lparr>entry = Json [\<lparr>key = ascii ''city'', value_str = ascii ''Oslo'', addedAt = 10\<rparr>],
         quotaExceeded = False\<rparr> =
     Inr (\<lparr>key = ascii ''city'', value_str = ascii ''Rome'', addedAt = 20\<rparr>,
          \<lparr>entry = Json [\<lparr>key = ascii ''city'', value_str = ascii ''Rome'', addedAt = 20\<rparr>],
           quotaExceeded = False\<rparr>)
   \<and> filter (\<lambda>m. key m = ascii ''city'')
        (load \<lparr>entry = Json [\<lparr>key = ascii ''city'', value_str = ascii ''Rome'', addedAt = 20\<rparr>],
               quotaExceeded = False\<rparr>) =
       [\<lparr>key = ascii ''city'', value_str = ascii ''Rome'', addedAt = 20\<rparr>]
   \<and> distinct (map key (load \<lparr>entry = Missing, quotaExceeded = False\<rparr>))
   \<and> distinct (map key (load (save_all
        [(ascii ''city'', ascii ''Oslo'', 10), (ascii ''pet'', ascii ''cat'', 15),
         (ascii ''city'', ascii ''Rome'', 20)]
        \<lparr>entry = Missing, quotaExceeded = False\<rparr>)))"
  using C7_last_write_wins
    [of "ascii ''city''" "ascii ''Oslo''" 10 "\<lparr>entry = Missing, quotaExceeded = False\<rparr>"
        "\<lparr>key = ascii ''city'', value_str = ascii ''Oslo'', addedAt = 10\<rparr>"
        "\<lparr>entry = Json [\<lparr>key = ascii ''city'', value_str = ascii ''Oslo'', addedAt = 10\<rparr>],
          quotaExceeded = False\<rparr>"
        "ascii ''Rome''" 20
        "\<lparr>key = ascii ''city'', value_str = ascii ''Rome'', addedAt = 20\<rparr>"
        "\<lparr>entry = Json [\<lparr>key = ascii ''city'', value_str = ascii ''Rome'', addedAt = 20\<rparr>],
          quotaExceeded = False\<rparr>"
        "[(ascii ''city'', ascii ''Oslo'', 10), (ascii ''pet'', ascii ''cat'', 15),
          (ascii ''city'', ascii ''Rome'', 20)]"]
  by (simp add: save_def load_def Let_def)

text \<open>
  C10. A save that returns leaves the store as the old facts without those of the saved
  key, followed by the new fact with the clock reading of this save. Hence, from an
  empty store whose writes succeed, \<open>load()\<close> lists the facts in the order of each
  key's most recent save, and the context string has its bullets in that order.
\<close>

theorem C10_most_recent_save_order:
  "(save k v t ls = Inr (m, ls') \<longrightarrow>
      load ls' = filter (\<lambda>m. key m \<noteq> k) (load ls) @ [\<lparr>key = k, value_str = v, addedAt = t\<rparr>])
   \<and> (\<not> quotaExceeded ls \<and> load ls = [] \<longrightarrow>
        load (save_all ops ls) = last_writes ops
        \<and> getContextString (save_all ops ls) =
            (if ops = [] then no_memories else join [10] (map bullet (last_writes ops))))"
  by (auto simp: load_save load_save_all getContextString_def last_writes_Nil)

theorem C10_most_recent_save_order_witness:
  "save (ascii ''a'') (ascii ''3'') 7
      \<lparr>entry = Json [\<lparr>key = ascii ''a'', value_str = ascii ''1'', addedAt = 5\<rparr>,
                     \<lparr>key = ascii ''b'', value_str = ascii ''2'', addedAt = 6\<rparr>],
       quotaExceeded = False\<rparr> =
     Inr (\<lparr>key = ascii ''a'', value_str = ascii ''3'', addedAt = 7\<rparr>,
          \<lparr>entry = Json [\<lparr>key = ascii ''b'', value_str = ascii ''2'', addedAt = 6\<rparr>,
                         \<lparr>key = ascii ''a'', value_str = ascii ''3'', addedAt = 7\<rparr>],
           quotaExceeded = False\<rparr>)
   \<and> load \<lparr>entry = Json [\<lparr>key = ascii ''b'', value_str = ascii ''2'', addedAt = 6\<rparr>,
                         \<lparr>key = ascii ''a'', value_str = ascii ''3'', addedAt = 7\<rparr>],
           quotaExceeded = False\<rparr> =
       [\<lparr>key = ascii ''b'', value_str = ascii ''2'', addedAt = 6\<rparr>,
        \<lparr>key = ascii ''a'', value_str = ascii ''3'', addedAt = 7\<rparr>]
   \<and> \<not> quotaExceeded \<lparr>entry = Missing, quotaExceeded = False\<rparr>
   \<and> load \<lparr>entry = Missing, quotaExceeded = False\<rparr> = []
   \<and> map key (load (save_all
        [(ascii ''a'', ascii ''1'', 5), (ascii ''b'', ascii ''2'', 6), (ascii ''a'', ascii ''3'', 7)]
        \<lparr>entry = Missing, quotaExceeded = False\<rparr>)) = [ascii ''b'', ascii ''a'']
   \<and> getContextString (save_all
        [(ascii ''a'', ascii ''1'', 5), (ascii ''b'', ascii ''2'', 6), (ascii ''a'', ascii ''3'', 7)]
        \<lparr>entry = Missing, quotaExceeded = False\<rparr>) =
       ascii ''- ['' @ [35760, 24518] @ ascii ''-b]: 2'' @ [10] @
       ascii ''- ['' @ [35760, 24518] @ ascii ''-a]: 3''"
  using C10_most_recent_save_order
    [of "ascii ''a''" "ascii ''3''" 7
        "\<lparr>entry = Json [\<lparr>key = ascii ''a'', value_str = ascii ''1'', addedAt = 5\<rparr>,
                       \<lparr>key = ascii ''b'', value_str = ascii ''2'', addedAt = 6\<rparr>],
          quotaExceeded = False\<rparr>"
        "\<lparr>key = ascii ''a'', value_str = ascii ''3'', addedAt = 7\<rparr>"
        "\<lparr>entry = Json [\<lparr>key = ascii ''b'', value_str = ascii ''2'', addedAt = 6\<rparr>,
                       \<lparr>key = ascii ''a'', value_str = ascii ''3'', addedAt = 7\<rparr>],
          quotaExceeded = False\<rparr>"]
    C10_most_recent_save_order
    [of _ _ _ "\<lparr>entry = Missing, quotaExceeded = False\<rparr>" _ _
        "[(ascii ''a'', ascii ''1'', 5), (ascii ''b'', ascii ''2'', 6), (ascii ''a'', ascii ''3'', 7)]"]
  by (simp add: save_def load_def Let_def ascii_def bullet_def)


section \<open>Properties of the detection-token parser\<close>

text \<open>Every match consumes at least one code unit, so the loop of \<open>exec_all\<close> ends.\<close>

lemma lit_length: "lit p s = Some r \<Longrightarrow> length s = length p + length r"
  by (induction p s rule: lit.induct) (auto split: if_splits)

lemma digits_length:
  assumes "digits s = Some (n, r)"
  shows "length r < length s"
proof -
  from assms have "takeWhile isDigit s \<noteq> []" and "r = dropWhile isDigit s"
    by (auto simp: digits_def Let_def split: if_splits)
  moreover have "length s = length (takeWhile isDigit s) + length (dropWhile isDigit s)"
    by (metis length_append takeWhile_dropWhile_id)
  ultimately show ?thesis by simp
qed

lemma coords_length: "coords s = Some (b, r) \<Longrightarrow> length r < length s"
  by (auto simp: coords_def split: Option.bind_splits dest!: lit_length digits_length)

lemma label_from_length: "label_from acc s = Some (l, b, r) \<Longrightarrow> length r < length s"
proof (induction acc s rule: label_from.induct)
  case (1 acc s)
  show ?case
  proof (cases "coords s")
    case None
    show ?thesis
    proof (cases s)
      case Nil
      with None 1(2) show ?thesis by (simp add: label_from.simps [of acc "[]"])
    next
      case (Cons c cs)
      with None 1(2) have "\<not> isLineTerminator c" and "label_from (c # acc) cs = Some (l, b, r)"
        by (auto simp: label_from.simps [of acc "c # cs"] split: if_splits)
      with 1(1) [OF None Cons] Cons show ?thesis by simp
    qed
  next
    case (Some a)
    with 1(2) show ?thesis
      by (auto simp: label_from.simps [of acc s] dest: coords_length)
  qed
qed

lemma match_at_length: "match_at s = Some (l, b, r) \<Longrightarrow> length r < length s"
  by (auto simp: match_at_def split: option.splits dest!: lit_length label_from_length)

termination exec_all
  by (relation "measure length") (auto dest: match_at_length)

declare exec_all.simps [simp del]

text \<open>The matcher against the grammar.\<close>

lemma lit_iff: "lit p s = Some r \<longleftrightarrow> s = p @ r"
  by (induction p s rule: lit.induct) auto

lemma digits_SomeD:
  "digits s = Some (n, r) \<Longrightarrow> \<exists>d. s = d @ r \<and> is_number d \<and> n = parseInt d"
  by (auto simp: digits_def Let_def is_number_def list_all_iff split: if_splits
      intro!: exI [of _ "takeWhile isDigit s"] dest: set_takeWhileD)

lemma digits_number:
  assumes "is_number d" and "\<not> isDigit c"
  shows "digits (d @ c # r) = Some (parseInt d, c # r)"
proof -
  have "\<forall>x\<in>set d. isDigit x" using assms(1) by (simp add: is_number_def list_all_iff)
  then have "takeWhile isDigit (d @ c # r) = d" and "dropWhile isDigit (d @ c # r) = c # r"
    using assms(2) by (simp_all add: takeWhile_append2 dropWhile_append2)
  then show ?thesis using assms(1) by (simp add: digits_def is_number_def)
qed

lemma not_digit [simp]: "\<not> isDigit 44" "\<not> isDigit 93"
  by (simp_all add: isDigit_def)

lemma coords_SomeD:
  assumes "coords s = Some (b, r)"
  shows "\<exists>d1 d2 d3 d4. s = [58] @ d1 @ [44] @ d2 @ [44] @ d3 @ [44] @ d4 @ [93] @ r
           \<and> is_number d1 \<and> is_number d2 \<and> is_number d3 \<and> is_number d4
           \<and> b = (parseInt d1, parseInt d2, parseInt d3, parseInt d4)"
proof -
  from assms obtain s1 n1 s2 s3 n2 s4 s5 n3 s6 s7 n4 s8 where
    "lit [58] s = Some s1" "digits s1 = Some (n1, s2)" "lit [44] s2 = Some s3"
    "digits s3 = Some (n2, s4)" "lit [44] s4 = Some s5" "digits s5 = Some (n3, s6)"
    "lit [44] s6 = Some s7" "digits s7 = Some (n4, s8)" "lit [93] s8 = Some r"
    "b = (n1, n2, n3, n4)"
    by (auto simp: coords_def split: Option.bind_splits)
  then show ?thesis
    by (auto simp: lit_iff dest!: digits_SomeD)
qed

lemma coords_numbers:
  assumes "is_number d1" "is_number d2" "is_number d3" "is_number d4"
  shows "coords ([58] @ d1 @ [44] @ d2 @ [44] @ d3 @ [44] @ d4 @ [93] @ r) =
           Some ((parseInt d1, parseInt d2, parseInt d3, parseInt d4), r)"
  using assms by (simp add: coords_def digits_number)

lemma token_prefix_iff:
  "token_prefix s l b r \<longleftrightarrow>
     (\<exists>s'. s = ascii ''[OBJECT:'' @ l @ s' \<and> list_all (\<lambda>c. \<not> isLineTerminator c) l
           \<and> coords s' = Some (b, r))"
proof
  assume "token_prefix s l b r"
  then obtain d1 d2 d3 d4 where
    s: "s = (ascii ''[OBJECT:'' @ l @ [58] @ d1 @ [44] @ d2 @ [44] @ d3 @ [44] @ d4 @ [93]) @ r"
    and l: "list_all (\<lambda>c. \<not> isLineTerminator c) l"
    and d: "is_number d1" "is_number d2" "is_number d3" "is_number d4"
    and b: "b = (parseInt d1, parseInt d2, parseInt d3, parseInt d4)"
    by (auto simp: token_prefix_def is_token_def)
  from coords_numbers [OF d, of r] b
  have "coords ([58] @ d1 @ [44] @ d2 @ [44] @ d3 @ [44] @ d4 @ [93] @ r) = Some (b, r)"
    by simp
  with s l show "\<exists>s'. s = ascii ''[OBJECT:'' @ l @ s' \<and> list_all (\<lambda>c. \<not> isLineTerminator c) l
           \<and> coords s' = Some (b, r)"
    by (intro exI [of _ "[58] @ d1 @ [44] @ d2 @ [44] @ d3 @ [44] @ d4 @ [93] @ r"]) simp
next
  assume "\<exists>s'. s = ascii ''[OBJECT:'' @ l @ s' \<and> list_all (\<lambda>c. \<not> isLineTerminator c) l
           \<and> coords s' = Some (b, r)"
  then obtain s' where s: "s = ascii ''[OBJECT:'' @ l @ s'"
    and l: "list_all (\<lambda>c. \<not> isLineTerminator c) l" and c: "coords s' = Some (b, r)"
    by blast
  from coords_SomeD [OF c] obtain d1 d2 d3 d4 where
    "s' = [58] @ d1 @ [44] @ d2 @ [44] @ d3 @ [44] @ d4 @ [93] @ r"
    "is_number d1" "is_number d2" "is_number d3" "is_number d4"
    "b = (parseInt d1, parseInt d2, parseInt d3, parseInt d4)"
    by blast
  with s l show "token_prefix s l b r"
    unfolding token_prefix_def is_token_def
    by (intro exI [of _ "ascii ''[OBJECT:'' @ l @ [58] @ d1 @ [44] @ d2 @ [44] @ d3 @ [44] @ d4 @ [93]"]
        conjI exI [of _ d1] exI [of _ d2] exI [of _ d3] exI [of _ d4]) simp_all
qed









lemma token_prefix_Nil [simp]: "\<not> token_prefix [] l b r"
  by (simp add: token_prefix_iff ascii_def)








section \<open>Properties of the session manager\<close>

text \<open>What logging, parsing and tool calls leave alone.\<close>

lemma erase_fields:
  assumes "erase s' = erase s"
  shows "sourcesRef s' = sourcesRef s" "audioNodes s' = audioNodes s"
    "nextStartTimeRef s' = nextStartTimeRef s" "timers s' = timers s"
    "timerCount s' = timerCount s" "reconnectTimeoutRef s' = reconnectTimeoutRef s"
    "frameIntervalRef s' = frameIntervalRef s" "isUserDisconnectingRef s' = isUserDisconnectingRef s"
    "connectionAttemptIdRef s' = connectionAttemptIdRef s" "nodeCount s' = nodeCount s"
    "activeAudioIdRef s' = activeAudioIdRef s" "activeVideoIdRef s' = activeVideoIdRef s"
  using assms
  by (auto simp: erase_def dest: arg_cong [where f = sourcesRef] arg_cong [where f = audioNodes]
      arg_cong [where f = nextStartTimeRef] arg_cong [where f = timers]
      arg_cong [where f = timerCount] arg_cong [where f = reconnectTimeoutRef]
      arg_cong [where f = frameIntervalRef] arg_cong [where f = isUserDisconnectingRef]
      arg_cong [where f = connectionAttemptIdRef] arg_cong [where f = nodeCount]
      arg_cong [where f = activeAudioIdRef] arg_cong [where f = activeVideoIdRef])

lemma erase_addLog [simp]: "erase (addLog m src ty s) = erase s"
  by (simp add: erase_def addLog_def)

lemma erase_parseARObjects [simp]: "erase (parseARObjects t now s) = erase s"
  by (simp add: erase_def parseARObjects_def Let_def)

lemma erase_parseParts [simp]: "erase (parseParts ps now s) = erase s"
proof -
  have "erase (foldl (\<lambda>st p. case part_text p of None \<Rightarrow> st
          | Some t \<Rightarrow> if t = [] then st else parseARObjects t now st) s ps) = erase s"
    by (induction ps arbitrary: s) (auto split: option.splits)
  then show ?thesis by (simp add: parseParts_def)
qed

lemma toolResult_erase:
  "toolResult fc now s = Inr (r, s') \<Longrightarrow> erase s' = erase s"
  by (auto simp: toolResult_def erase_def split: if_splits option.splits sum.splits)

lemma toolResult_quota:
  "toolResult fc now s = Inr (r, s') \<Longrightarrow>
     quotaExceeded (localStorage s') = quotaExceeded (localStorage s)"
  by (auto simp: toolResult_def split: if_splits option.splits sum.splits dest: save_quota)

lemma erase_handleToolCalls [simp]: "erase (fst (handleToolCalls a fcs now s)) = erase s"
proof (induction fcs arbitrary: s)
  case Nil
  show ?case by simp
next
  case (Cons fc fcs)
  let ?s1 = "addLog (ToolProtocol (fc_name fc)) TOOL Info s"
  show ?case
  proof (cases "toolResult fc now ?s1")
    case (Inl e)
    then show ?thesis by (simp add: Let_def)
  next
    case (Inr p)
    obtain r s2 where p: "p = (r, s2)" by (cases p)
    have "erase s2 = erase s" using toolResult_erase [of fc now ?s1 r s2] Inr p by simp
    then have "erase (s2\<lparr>toolResponses := toolResponses s2 @
        [(a, \<lparr>fr_id = fc_id fc, fr_name = fc_name fc, fr_result = r\<rparr>)]\<rparr>) = erase s"
      by (simp add: erase_def)
    with Cons Inr p show ?thesis by (simp add: Let_def)
  qed
qed

lemmas handler_defs =
  run_def mount_def handleDeviceSelection_def connect_def onopen_def onopen_media_def
  startVideoStreaming_def setTimer_def clearTimer_def addLog_def onmessage_def audioData_def
  playAudioResponse_begin_def playAudioResponse_resume_def stopAllAudio_def disconnect_def
  cleanup_def onclose_def fire_timer_def source_onended_def reopen_def parseParts_def onerror_def

lemmas scenario_defs =
  live_state_def initial_state_def fresh_storage_def env_at_def load_def audio_message_def
  heard_at_def playing_state_def playing_two_def ascii_def

lemma live_state_fields:
  "connectionAttemptIdRef live_state = 1000" "nextStartTimeRef live_state = 0"
  "sourcesRef live_state = {}" "nodeCount live_state = 0" "\<not> isUserDisconnectingRef live_state"
  "timerCount live_state = 1" "reconnectTimeoutRef live_state = None"
  "toolResponses live_state = []" "localStorage live_state = fresh_storage"
  "activeAudioIdRef live_state = ascii ''mic''" "activeVideoIdRef live_state = ascii ''cam''"
  by (simp_all add: scenario_defs handler_defs Let_def)

lemma connect_attempt: "connectionAttemptIdRef (connect audioId videoId env s) = dateNow env"
  by (simp add: connect_def Let_def addLog_def)

lemma stale_callback:
  "connectionAttemptIdRef s \<noteq> attemptId \<Longrightarrow> callback_of attemptId e \<Longrightarrow> step e s = s"
  by (cases e) (simp_all add: callback_of_def onopen_def onmessage_def onclose_def onerror_def)

lemma stale_callbacks:
  "connectionAttemptIdRef s \<noteq> attemptId \<Longrightarrow> list_all (callback_of attemptId) es \<Longrightarrow> run es s = s"
  unfolding run_def by (induction es) (simp_all add: stale_callback)

text \<open>
  C1. A callback of a session (open, message or close) that runs when the current
  attempt identifier is not that of its own attempt returns the state as it found it:
  flags, playback clock, sources, overlays, logs and timers are all untouched. So does
  any sequence of callbacks of that attempt.
\<close>

theorem C1_stale_callbacks_ignored:
  "connectionAttemptIdRef s \<noteq> attemptId \<longrightarrow>
     onopen attemptId s = s \<and> onmessage attemptId msg env s = s \<and> onclose attemptId s = s
     \<and> (list_all (callback_of attemptId) es \<longrightarrow> run es s = s)"
  by (simp add: onopen_def onmessage_def onclose_def stale_callbacks)

theorem C1_stale_callbacks_ignored_witness:
  "connectionAttemptIdRef superseding_state \<noteq> 1000
   \<and> onopen 1000 superseding_state = superseding_state
   \<and> onmessage 1000 (audio_message True) (heard_at 100) superseding_state = superseding_state
   \<and> onclose 1000 superseding_state = superseding_state
   \<and> list_all (callback_of 1000)
        [Open 1000, Message 1000 (audio_message True) (heard_at 100), Close 1000]
   \<and> run [Open 1000, Message 1000 (audio_message True) (heard_at 100), Close 1000]
        superseding_state = superseding_state"
proof -
  have stale: "connectionAttemptIdRef superseding_state \<noteq> 1000"
    by (simp add: superseding_state_def run_def handleDeviceSelection_def connect_attempt env_at_def)
  have cbs: "list_all (callback_of 1000)
        [Open 1000, Message 1000 (audio_message True) (heard_at 100), Close 1000]"
    by (simp add: callback_of_def)
  from C1_stale_callbacks_ignored
    [of superseding_state 1000 "audio_message True" "heard_at 100"
      "[Open 1000, Message 1000 (audio_message True) (heard_at 100), Close 1000]"]
    stale cbs
  show ?thesis by simp
qed

text \<open>The interruption is the last thing \<open>onmessage\<close> looks at.\<close>

lemma onmessage_current:
  assumes "connectionAttemptIdRef s = a"
  shows "\<exists>s3. sourcesRef s3 = sourcesRef s \<and> audioNodes s3 = audioNodes s \<and>
          onmessage a msg env s =
            (if interrupted msg then stopAllAudio (addLog UserInterrupt JARVIS Warning s3) else s3)"
proof -
  define s1 where "s1 = (case audioData msg of None \<Rightarrow> s
     | Some d \<Rightarrow> if d \<noteq> [] \<and> audioContextRef s \<noteq> None \<and> analyserRef s
         then playAudioResponse_begin (decodeOk env) (currentTime env) s else s)"
  define s2 where "s2 = (case parts msg of None \<Rightarrow> s1 | Some ps \<Rightarrow> parseParts ps (messageNow env) s1)"
  define s3 where "s3 = (case toolCall msg of None \<Rightarrow> s2
     | Some fcs \<Rightarrow> fst (handleToolCalls a fcs (messageNow env) s2))"
  have 1: "sourcesRef s1 = sourcesRef s \<and> audioNodes s1 = audioNodes s"
    by (simp add: s1_def playAudioResponse_begin_def split: option.splits)
  have "erase s2 = erase s1" by (simp add: s2_def split: option.splits)
  moreover have "erase s3 = erase s2" by (simp add: s3_def split: option.splits)
  ultimately have "erase s3 = erase s1" by simp
  then have "sourcesRef s3 = sourcesRef s1" "audioNodes s3 = audioNodes s1"
    by (rule erase_fields)+
  with 1 have "sourcesRef s3 = sourcesRef s \<and> audioNodes s3 = audioNodes s" by simp
  moreover have "onmessage a msg env s =
      (if interrupted msg then stopAllAudio (addLog UserInterrupt JARVIS Warning s3) else s3)"
    unfolding s3_def s2_def s1_def onmessage_def Let_def using assms by simp
  ultimately show ?thesis by blast
qed

text \<open>Every member of the set of sources is a node that \<open>playAudioResponse\<close> has made.\<close>

lemma nodes_ok_cong:
  "sourcesRef s' = sourcesRef s \<Longrightarrow> audioNodes s' = audioNodes s \<Longrightarrow> nodes_ok s' = nodes_ok s"
  by (simp add: nodes_ok_def)

lemma connect_nodes:
  "sourcesRef (connect audioId videoId env s) = sourcesRef s"
  "audioNodes (connect audioId videoId env s) = audioNodes s"
  by (simp_all add: connect_def Let_def addLog_def)

lemma disconnect_nodes:
  "sourcesRef (disconnect s) = sourcesRef s" "audioNodes (disconnect s) = audioNodes s"
  by (simp_all add: disconnect_def cleanup_def clearTimer_def addLog_def Let_def split: option.splits)

lemma onclose_nodes:
  "sourcesRef (onclose a s) = sourcesRef s" "audioNodes (onclose a s) = audioNodes s"
  by (simp_all add: onclose_def cleanup_def clearTimer_def setTimer_def addLog_def Let_def
      split: option.splits)

lemma onopen_media_nodes:
  "sourcesRef (onopen_media audioId videoId acquired s) = sourcesRef s"
  "audioNodes (onopen_media audioId videoId acquired s) = audioNodes s"
  by (simp_all add: onopen_media_def startVideoStreaming_def clearTimer_def setTimer_def
      disconnect_nodes addLog_def Let_def split: option.splits)

lemma fire_timer_nodes:
  "sourcesRef (fire_timer h env s) = sourcesRef s" "audioNodes (fire_timer h env s) = audioNodes s"
  by (simp_all add: fire_timer_def connect_nodes split: option.splits timer.splits)

lemma nodes_ok_onmessage: "nodes_ok s \<Longrightarrow> nodes_ok (onmessage a msg env s)"
proof (cases "connectionAttemptIdRef s = a")
  case False
  then show "nodes_ok s \<Longrightarrow> ?thesis" by (simp add: onmessage_def)
next
  case True
  assume ok: "nodes_ok s"
  from onmessage_current [OF True, of msg env] obtain s3 where
    s3: "sourcesRef s3 = sourcesRef s" "audioNodes s3 = audioNodes s"
    and eq: "onmessage a msg env s =
      (if interrupted msg then stopAllAudio (addLog UserInterrupt JARVIS Warning s3) else s3)"
    by blast
  show ?thesis
    unfolding eq using ok s3 by (simp add: nodes_ok_def stopAllAudio_def)
qed

lemma nodes_ok_step: "nodes_ok s \<Longrightarrow> nodes_ok (step e s)"
proof (cases e)
  case (Message a msg env)
  then show "nodes_ok s \<Longrightarrow> ?thesis" by (simp add: nodes_ok_onmessage)
next
  case (AudioDecoded buffer)
  then show "nodes_ok s \<Longrightarrow> ?thesis"
    by (auto simp: nodes_ok_def playAudioResponse_resume_def Let_def split: option.splits)
next
  case (SourceEnded i)
  then show "nodes_ok s \<Longrightarrow> ?thesis" by (simp add: nodes_ok_def source_onended_def)
qed (simp_all add: nodes_ok_def mount_def addLog_def handleDeviceSelection_def connect_nodes
    onopen_def onopen_media_nodes onclose_nodes onerror_def disconnect_nodes fire_timer_nodes)

lemma nodes_ok_run: "nodes_ok s \<Longrightarrow> nodes_ok (run es s)"
  unfolding run_def by (induction es arbitrary: s) (simp_all add: nodes_ok_step)

lemma nodes_ok_initial: "nodes_ok (initial_state ls)"
  by (simp add: nodes_ok_def initial_state_def)

text \<open>
  C4. When a message of the current attempt carries the interruption flag, the handler
  returns with an empty set of sources and the playback clock at zero, and every node
  that was in the set has been stopped, however many there were. (In every state the
  session manager reaches, every member of the set is such a node.)
\<close>

theorem C4_interruption_stops_all:
  "(connectionAttemptIdRef s = a \<and> interrupted msg \<longrightarrow>
      sourcesRef (onmessage a msg env s) = {}
      \<and> nextStartTimeRef (onmessage a msg env s) = 0
      \<and> (\<forall>i\<in>sourcesRef s. \<forall>n. audioNodes s i = Some n \<longrightarrow>
            audioNodes (onmessage a msg env s) i = Some (n\<lparr>stopped := True\<rparr>)))
   \<and> (\<forall>i\<in>sourcesRef (run es (initial_state ls)).
         \<exists>n. audioNodes (run es (initial_state ls)) i = Some n)"
proof (intro conjI impI)
  assume "connectionAttemptIdRef s = a \<and> interrupted msg"
  then have a: "connectionAttemptIdRef s = a" and i: "interrupted msg" by simp_all
  from onmessage_current [OF a, of msg env] i obtain s3 where
    s3: "sourcesRef s3 = sourcesRef s" "audioNodes s3 = audioNodes s"
    and eq: "onmessage a msg env s = stopAllAudio (addLog UserInterrupt JARVIS Warning s3)"
    by auto
  show "sourcesRef (onmessage a msg env s) = {}"
    and "nextStartTimeRef (onmessage a msg env s) = 0"
    and "\<forall>i\<in>sourcesRef s. \<forall>n. audioNodes s i = Some n \<longrightarrow>
           audioNodes (onmessage a msg env s) i = Some (n\<lparr>stopped := True\<rparr>)"
    unfolding eq using s3 by (simp_all add: stopAllAudio_def addLog_def)
next
  have "nodes_ok (run es (initial_state ls))"
    by (intro nodes_ok_run nodes_ok_initial)
  then show "\<forall>i\<in>sourcesRef (run es (initial_state ls)).
         \<exists>n. audioNodes (run es (initial_state ls)) i = Some n"
    by (simp add: nodes_ok_def)
qed

lemma playing_two_fields:
  "connectionAttemptIdRef playing_two = 1000" "sourcesRef playing_two = {0, 1}"
  "nextStartTimeRef playing_two = 108"
  "audioNodes playing_two 0 = Some \<lparr>startWhen = 100, duration = 5, stopped = False\<rparr>"
  "audioNodes playing_two (Suc 0) = Some \<lparr>startWhen = 105, duration = 3, stopped = False\<rparr>"
  by (simp_all add: scenario_defs handler_defs Let_def insert_commute)

theorem C4_interruption_stops_all_witness:
  "connectionAttemptIdRef playing_two = 1000 \<and> interrupted interrupt_message
   \<and> sourcesRef playing_two = {0, 1}
   \<and> sourcesRef (onmessage 1000 interrupt_message (heard_at 102) playing_two) = {}
   \<and> nextStartTimeRef (onmessage 1000 interrupt_message (heard_at 102) playing_two) = 0
   \<and> audioNodes (onmessage 1000 interrupt_message (heard_at 102) playing_two) 0 =
       Some \<lparr>startWhen = 100, duration = 5, stopped = True\<rparr>
   \<and> audioNodes (onmessage 1000 interrupt_message (heard_at 102) playing_two) 1 =
       Some \<lparr>startWhen = 105, duration = 3, stopped = True\<rparr>"
  using C4_interruption_stops_all [of playing_two 1000 interrupt_message "heard_at 102" "[]"]
  by (simp add: playing_two_fields interrupt_message_def)

text \<open>
  The scheduling rule on the path where nothing runs between the two halves of
  \<open>playAudioResponse\<close>: the node starts at the greater of the playback clock and the
  output clock, and the playback clock moves to that time plus the duration. Two
  segments in a row then neither overlap nor leave a gap.
\<close>

lemma playAudioResponse_rule:
  "audioNodes (playAudioResponse True now (Some d) s) (nodeCount s) =
      Some \<lparr>startWhen = max (nextStartTimeRef s) now, duration = d, stopped = False\<rparr>
   \<and> nextStartTimeRef (playAudioResponse True now (Some d) s) = max (nextStartTimeRef s) now + d
   \<and> sourcesRef (playAudioResponse True now (Some d) s) = insert (nodeCount s) (sourcesRef s)
   \<and> nodeCount (playAudioResponse True now (Some d) s) = Suc (nodeCount s)"
  by (simp add: playAudioResponse_def playAudioResponse_begin_def playAudioResponse_resume_def Let_def)

lemma playAudioResponse_twice:
  assumes "s1 = playAudioResponse True t1 (Some d1) s"
    and "s2 = playAudioResponse True t2 (Some d2) s1"
    and "audioNodes s1 (nodeCount s) = Some n1" and "audioNodes s2 (nodeCount s1) = Some n2"
  shows "startWhen n1 + d1 \<le> startWhen n2"
    and "t2 \<le> startWhen n1 + d1 \<Longrightarrow> startWhen n2 = startWhen n1 + d1"
  using assms playAudioResponse_rule [of t1 d1 s] playAudioResponse_rule [of t2 d2 s1]
  by auto

text \<open>
  C2. A message of the current attempt that carries audio data and the interruption flag.
  The first half of \<open>playAudioResponse\<close> raises the playback clock to the output clock
  (100 s), the interruption puts it back to zero before \<open>onmessage\<close> returns, and the
  second half, which runs after that, starts the node at 0 and leaves the clock at the
  duration, 5 s: not at the greater of playback clock and output clock, and not at that
  time plus the duration. The node is in the set of sources and has not been stopped. A
  segment that arrives with the output clock at 101 s is then started at 101 s.
\<close>

theorem C2_interrupted_message_schedule:
  "audioNodes (run [Message 1000 (audio_message True) (heard_at 100), AudioDecoded (Some 5)] live_state) 0
     = Some \<lparr>startWhen = 0, duration = 5, stopped = False\<rparr>
   \<and> nextStartTimeRef
       (run [Message 1000 (audio_message True) (heard_at 100), AudioDecoded (Some 5)] live_state) = 5
   \<and> sourcesRef
       (run [Message 1000 (audio_message True) (heard_at 100), AudioDecoded (Some 5)] live_state) = {0}
   \<and> max (nextStartTimeRef live_state) (currentTime (heard_at 100)) = 100
   \<and> audioNodes
       (run [Message 1000 (audio_message True) (heard_at 100), AudioDecoded (Some 5),
             Message 1000 (audio_message False) (heard_at 101), AudioDecoded (Some 3)] live_state) 1
     = Some \<lparr>startWhen = 101, duration = 3, stopped = False\<rparr>"
  by (simp add: scenario_defs handler_defs Let_def)



text \<open>Tool calls: which of them throw, and what the others answer.\<close>

lemma tool_names_distinct [simp]:
  "ascii ''setReminder'' \<noteq> ascii ''toggleSmartHome''"
  "ascii ''setReminder'' \<noteq> ascii ''saveToLongTermMemory''"
  "ascii ''toggleSmartHome'' \<noteq> ascii ''saveToLongTermMemory''"
  "ascii ''toggleSmartHome'' \<noteq> ascii ''setReminder''"
  "ascii ''saveToLongTermMemory'' \<noteq> ascii ''setReminder''"
  "ascii ''saveToLongTermMemory'' \<noteq> ascii ''toggleSmartHome''"
  by (simp_all add: ascii_def)

lemma toolResult_throws:
  "tool_throws (localStorage s) fc \<Longrightarrow> \<exists>e. toolResult fc now s = Inl e"
  by (auto simp: tool_throws_def known_tool_def toolResult_def save_def Let_def split: option.splits)

lemma toolResult_returns:
  "\<not> tool_throws (localStorage s) fc \<Longrightarrow> \<exists>r s'. toolResult fc now s = Inr (r, s')"
  by (auto simp: tool_throws_def known_tool_def toolResult_def save_def Let_def split: option.splits)

lemma toolResult_unknown:
  "\<not> known_tool (fc_name fc) \<Longrightarrow> toolResult fc now s = Inr (ascii ''OK'', s)"
  by (simp add: known_tool_def toolResult_def)

lemma handleToolCalls_responses:
  "\<exists>new. toolResponses (fst (handleToolCalls a fcs now s)) = toolResponses s @ new
     \<and> map correlation new =
         map (\<lambda>fc. (a, fc_id fc, fc_name fc)) (takeWhile (\<lambda>fc. \<not> tool_throws (localStorage s) fc) fcs)
     \<and> (snd (handleToolCalls a fcs now s) = None) =
         list_all (\<lambda>fc. \<not> tool_throws (localStorage s) fc) fcs"
  (is "\<exists>new. ?P fcs s new")
proof (induction fcs arbitrary: s)
  case Nil
  show ?case by simp
next
  case (Cons fc fcs)
  define s1 where "s1 = addLog (ToolProtocol (fc_name fc)) TOOL Info s"
  have ls1: "localStorage s1 = localStorage s" and tr1: "toolResponses s1 = toolResponses s"
    by (simp_all add: s1_def addLog_def)
  show ?case
  proof (cases "tool_throws (localStorage s) fc")
    case True
    with toolResult_throws [of s1 fc now] ls1 obtain e where "toolResult fc now s1 = Inl e"
      by auto
    then have "handleToolCalls a (fc # fcs) now s = (s1, Some e)"
      by (simp add: Let_def s1_def)
    with True tr1 have "?P (fc # fcs) s []" by simp
    then show ?thesis ..
  next
    case False
    with toolResult_returns [of s1 fc now] ls1 obtain r s2 where
      r: "toolResult fc now s1 = Inr (r, s2)" by auto
    define resp where "resp = (a, \<lparr>fr_id = fc_id fc, fr_name = fc_name fc, fr_result = r\<rparr>)"
    define s3 where "s3 = s2\<lparr>toolResponses := toolResponses s2 @ [resp]\<rparr>"
    have tr2: "toolResponses s2 = toolResponses s"
      using r tr1 by (auto simp: toolResult_def split: if_splits option.splits sum.splits)
    then have tr3: "toolResponses s3 = toolResponses s @ [resp]" by (simp add: s3_def)
    have "quotaExceeded (localStorage s3) = quotaExceeded (localStorage s)"
      using toolResult_quota [OF r] ls1 by (simp add: s3_def)
    then have tt: "tool_throws (localStorage s3) = tool_throws (localStorage s)"
      by (simp add: tool_throws_def fun_eq_iff)
    have h: "handleToolCalls a (fc # fcs) now s = handleToolCalls a fcs now s3"
      using r by (simp add: Let_def s1_def s3_def resp_def)
    from Cons [of s3] obtain new where new: "?P fcs s3 new" ..
    have "?P (fc # fcs) s (resp # new)"
      unfolding h using new False by (simp add: tt tr3 correlation_def resp_def)
    then show ?thesis ..
  qed
qed

text \<open>
  C5 does not hold as stated where an operation fails: with the storage full, a payload
  of a save and a reminder gets no response at all. The exception of the save ends the
  loop.
\<close>

theorem C5_counterexample:
  "toolResponses (fst (handleToolCalls 1000 [save_call, reminder_call] 2000
      (run [StorageQuota True] live_state))) = []
   \<and> snd (handleToolCalls 1000 [save_call, reminder_call] 2000
      (run [StorageQuota True] live_state)) = Some QuotaExceededError"
  by (simp add: scenario_defs handler_defs Let_def save_call_def reminder_call_def
      toolResult_def save_def arg_def)

text \<open>
  C5, as amended. The calls of a payload are answered in order, each with exactly one
  response that carries its call id and its name, up to the first call whose operation
  throws: that call and the calls after it get no response, and nothing turns the failure
  into a success. No call throws if and only if the loop runs to its end; then every
  call has its response. A call of an unknown name never throws and is answered \<open>OK\<close>.
\<close>

theorem C5_tool_responses:
  "(\<exists>new. toolResponses (fst (handleToolCalls a fcs now s)) = toolResponses s @ new
      \<and> map correlation new =
          map (\<lambda>fc. (a, fc_id fc, fc_name fc))
            (takeWhile (\<lambda>fc. \<not> tool_throws (localStorage s) fc) fcs))
   \<and> (snd (handleToolCalls a fcs now s) = None) =
       list_all (\<lambda>fc. \<not> tool_throws (localStorage s) fc) fcs
   \<and> (\<not> known_tool (fc_name fc) \<longrightarrow>
        \<not> tool_throws (localStorage s) fc \<and> toolResult fc now s = Inr (ascii ''OK'', s))"
  using handleToolCalls_responses [of a fcs now s]
  by (auto simp: toolResult_unknown tool_throws_def)

theorem C5_tool_responses_witness:
  "list_all (\<lambda>fc. \<not> tool_throws (localStorage live_state) fc) [reminder_call, save_call, unknown_call]
   \<and> map correlation
       (toolResponses (fst (handleToolCalls 1000 [reminder_call, save_call, unknown_call] 2000 live_state)))
     = [(1000, ascii ''c1'', ascii ''setReminder''),
        (1000, ascii ''c2'', ascii ''saveToLongTermMemory''),
        (1000, ascii ''c3'', ascii ''openPodBayDoors'')]
   \<and> snd (handleToolCalls 1000 [reminder_call, save_call, unknown_call] 2000 live_state) = None
   \<and> \<not> known_tool (fc_name unknown_call)
   \<and> toolResult unknown_call 2000 live_state = Inr (ascii ''OK'', live_state)"
proof -
  have ok: "list_all (\<lambda>fc. \<not> tool_throws (localStorage live_state) fc)
      [reminder_call, save_call, unknown_call]"
    and unknown: "\<not> known_tool (fc_name unknown_call)"
    by (simp_all add: tool_throws_def known_tool_def reminder_call_def save_call_def
        unknown_call_def live_state_fields fresh_storage_def ascii_def)
  from ok have all: "takeWhile (\<lambda>fc. \<not> tool_throws (localStorage live_state) fc)
      [reminder_call, save_call, unknown_call] = [reminder_call, save_call, unknown_call]"
    by simp
  from C5_tool_responses
    [of 1000 "[reminder_call, save_call, unknown_call]" 2000 live_state unknown_call]
  show ?thesis
    unfolding all using ok unknown
    by (auto simp: live_state_fields reminder_call_def save_call_def unknown_call_def)
qed

text \<open>
  C9. The attempt identifier is the reading of the wall clock. Two initiations at the
  same reading get the same identifier, an initiation at an earlier reading (the clock
  has been set back) a smaller one. With equal identifiers the close callback of the
  older attempt is taken for one of the newer: it schedules a reconnect.
\<close>

theorem C9_attempt_id_is_the_clock_reading:
  "connectionAttemptIdRef live_state = 1000
   \<and> connectionAttemptIdRef
       (run [DeviceSelection (ascii ''mic'') (ascii ''cam'') (env_at 1000)] live_state) = 1000
   \<and> connectionAttemptIdRef
       (run [DeviceSelection (ascii ''mic'') (ascii ''cam'') (env_at 999)] live_state) = 999
   \<and> reconnectTimeoutRef
       (run [DeviceSelection (ascii ''mic'') (ascii ''cam'') (env_at 1000)] live_state) = None
   \<and> reconnectTimeoutRef
       (run [DeviceSelection (ascii ''mic'') (ascii ''cam'') (env_at 1000), Close 1000] live_state)
       = Some 2"
  by (simp add: scenario_defs handler_defs Let_def)


section \<open>The reconnect timer\<close>






lemma timers_ok_addLog [simp]: "timers_ok (addLog m src ty s) = timers_ok s"
  by (simp add: timers_ok_def addLog_def)


lemma clearTimer_fields [simp]:
  "timerCount (clearTimer ref s) = timerCount s"
  "reconnectTimeoutRef (clearTimer ref s) = reconnectTimeoutRef s"
  "frameIntervalRef (clearTimer ref s) = frameIntervalRef s"
  "isUserDisconnectingRef (clearTimer ref s) = isUserDisconnectingRef s"
  "connectionAttemptIdRef (clearTimer ref s) = connectionAttemptIdRef s"
  "activeAudioIdRef (clearTimer ref s) = activeAudioIdRef s"
  "activeVideoIdRef (clearTimer ref s) = activeVideoIdRef s"
  by (simp_all add: clearTimer_def split: option.splits)





lemma cleanup_fields [simp]:
  "isUserDisconnectingRef (cleanup s) = isUserDisconnectingRef s"
  "connectionAttemptIdRef (cleanup s) = connectionAttemptIdRef s"
  "reconnectTimeoutRef (cleanup s) = reconnectTimeoutRef s"
  by (simp_all add: cleanup_def clearTimer_def Let_def split: option.splits)

















lemma quiescent_addLog [simp]: "quiescent (addLog m src ty s) = quiescent s"
  by (simp add: quiescent_def addLog_def)

lemma addLog_attempt [simp]:
  "connectionAttemptIdRef (addLog m src ty s) = connectionAttemptIdRef s"
  by (simp add: addLog_def)


lemma disconnect_attempt [simp]:
  "connectionAttemptIdRef (disconnect s) = connectionAttemptIdRef s"
  by (simp add: disconnect_def Let_def)






end
